theory Spec2Isabelle
  imports Complex_Main
begin

section \<open>Numbers\<close>

text \<open>
  The TypeScript type \<open>number\<close> is modelled by \<^typ>\<open>real\<close>: every arithmetic
  operation of the source is the exact operation on real numbers. The easing formulas and
  the elapsed-fraction formula are stated by the specification for real (exact) inputs;
  rounding, infinities and NaN of the IEEE doubles are outside this model.
\<close>

section \<open>The easing catalog (easing.ts)\<close>

text \<open>
  Each entry of \<open>EasingFunctions\<close> is translated operator by operator. JavaScript
  evaluates operands left to right and \<open>--t\<close> first stores \<open>t - 1\<close> in \<open>t\<close> and then
  yields the new value, so every later read of \<open>t\<close> in the same expression sees the
  decremented value; the model names that value \<open>t'\<close>. The test \<open>t < 0.5\<close> of the
  conditional entries reads \<open>t\<close> before the decrement.
  The source's \<open>linear\<close> is called \<open>linear_easing\<close> here, since \<open>linear\<close> is a
  constant of the library.
\<close>

definition linear_easing :: "real \<Rightarrow> real" where
  "linear_easing t = t"

definition easeInQuad :: "real \<Rightarrow> real" where
  "easeInQuad t = t * t"

definition easeOutQuad :: "real \<Rightarrow> real" where
  "easeOutQuad t = t * (2 - t)"

definition easeInOutQuad :: "real \<Rightarrow> real" where
  "easeInOutQuad t = (if t < 0.5 then 2 * t * t else - 1 + (4 - 2 * t) * t)"

definition easeInCubic :: "real \<Rightarrow> real" where
  "easeInCubic t = t * t * t"

definition easeOutCubic :: "real \<Rightarrow> real" where
  "easeOutCubic t = (let t' = t - 1 in t' * t' * t' + 1)"

definition easeInOutCubic :: "real \<Rightarrow> real" where
  "easeInOutCubic t =
     (if t < 0.5 then 4 * t * t * t else (t - 1) * (2 * t - 2) * (2 * t - 2) + 1)"

definition easeInQuart :: "real \<Rightarrow> real" where
  "easeInQuart t = t * t * t * t"

definition easeOutQuart :: "real \<Rightarrow> real" where
  "easeOutQuart t = (let t' = t - 1 in 1 - t' * t' * t' * t')"

definition easeInOutQuart :: "real \<Rightarrow> real" where
  "easeInOutQuart t =
     (if t < 0.5 then 8 * t * t * t * t
      else (let t' = t - 1 in 1 - 8 * t' * t' * t' * t'))"

definition easeInQuint :: "real \<Rightarrow> real" where
  "easeInQuint t = t * t * t * t * t"

definition easeOutQuint :: "real \<Rightarrow> real" where
  "easeOutQuint t = (let t' = t - 1 in 1 + t' * t' * t' * t' * t')"

definition easeInOutQuint :: "real \<Rightarrow> real" where
  "easeInOutQuint t =
     (if t < 0.5 then 16 * t * t * t * t * t
      else (let t' = t - 1 in 1 + 16 * t' * t' * t' * t' * t'))"

text \<open>
  The exported object, as the list of its properties in source order: the key and the
  function stored under it.
\<close>

definition EasingFunctions :: "(string \<times> (real \<Rightarrow> real)) list" where
  "EasingFunctions =
     [(''linear'', linear_easing),
      (''easeInQuad'', easeInQuad),
      (''easeOutQuad'', easeOutQuad),
      (''easeInOutQuad'', easeInOutQuad),
      (''easeInCubic'', easeInCubic),
      (''easeOutCubic'', easeOutCubic),
      (''easeInOutCubic'', easeInOutCubic),
      (''easeInQuart'', easeInQuart),
      (''easeOutQuart'', easeOutQuart),
      (''easeInOutQuart'', easeInOutQuart),
      (''easeInQuint'', easeInQuint),
      (''easeOutQuint'', easeOutQuint),
      (''easeInOutQuint'', easeInOutQuint)]"

section \<open>The animation driver (animate.ts)\<close>

subsection \<open>Options and their merge\<close>

datatype AnimationElement = Window | HTMLElement nat

record AnimationOptions =
  cancelOnUserAction :: bool
  element :: AnimationElement
  easing :: "real \<Rightarrow> real"
  duration :: real

text \<open>
  \<open>Partial<AnimationOptions>\<close>: every property is either present with a value of its
  declared type or absent (\<open>None\<close>). The parameter \<open>userOptions\<close> itself is optional;
  a missing argument is \<open>None\<close>.
\<close>

record PartialAnimationOptions =
  user_cancelOnUserAction :: "bool option"
  user_element :: "AnimationElement option"
  user_easing :: "(real \<Rightarrow> real) option"
  user_duration :: "real option"

text \<open>
  The contents of the module-level object \<open>defaultOptions\<close> when the module has just
  been loaded (lines 14-19).
\<close>

definition defaultOptions :: AnimationOptions where
  "defaultOptions =
     \<lparr>cancelOnUserAction = True, element = Window, easing = linear_easing, duration = 1000\<rparr>"

text \<open>
  \<open>Object.assign(target, source)\<close> writes every own property of \<open>source\<close> into the
  object \<open>target\<close> and returns \<open>target\<close> itself; an undefined source is skipped.
  The function below gives the contents of \<open>target\<close> after the call.
\<close>

definition Object_assign ::
  "AnimationOptions \<Rightarrow> PartialAnimationOptions option \<Rightarrow> AnimationOptions" where
  "Object_assign target source =
     (case source of
        None \<Rightarrow> target
      | Some src \<Rightarrow>
          \<lparr>cancelOnUserAction =
             (case user_cancelOnUserAction src of None \<Rightarrow> cancelOnUserAction target | Some b \<Rightarrow> b),
           element = (case user_element src of None \<Rightarrow> element target | Some e \<Rightarrow> e),
           easing = (case user_easing src of None \<Rightarrow> easing target | Some f \<Rightarrow> f),
           duration = (case user_duration src of None \<Rightarrow> duration target | Some d \<Rightarrow> d)\<rparr>)"

text \<open>
  Line 40, \<open>const options = Object.assign(defaultOptions, userOptions)\<close>: the target of
  the assignment is the module-level object, so after the statement \<open>options\<close> and
  \<open>defaultOptions\<close> are the same object. The first argument is the contents of
  \<open>defaultOptions\<close> before the call; the result is the pair of the contents of
  \<open>defaultOptions\<close> after the call and the contents of \<open>options\<close>.
\<close>

definition merge_options ::
  "AnimationOptions \<Rightarrow> PartialAnimationOptions option \<Rightarrow> AnimationOptions \<times> AnimationOptions" where
  "merge_options defaults userOptions =
     (let options = Object_assign defaults userOptions in (options, options))"

subsection \<open>The state of one run and of its host\<close>

datatype signal = Wheel | Touchstart | Mousedown | Keydown

text \<open>
  The values that reach the \<open>handler\<close> parameter of \<open>removeListeners\<close> and
  \<open>addListeners\<close>: the function \<open>animationCompleteHandler\<close> of the run, an element,
  or \<open>undefined\<close>.
\<close>

datatype js_value = Undefined | ElementRef AnimationElement | AnimationCompleteHandlerRef

text \<open>
  The closure variables of the run (\<open>start\<close>, \<open>nextValueIterator\<close>, \<open>requestId\<close>;
  \<open>None\<close> is \<open>undefined\<close>), the part of the host the run acts on (the handles of
  the scheduled animation-frame callbacks, all of which are the run's \<open>frame\<close>; the
  host's next free handle; the listeners registered on the configured element) and what
  the caller observes (the arguments of the calls of \<open>step\<close>, in order, and the number
  of calls of the promise's \<open>resolve\<close>; the promise is settled once that number is
  positive).
\<close>

record run_state =
  start :: "real option"
  nextValueIterator :: "(real \<Rightarrow> real) option"
  requestId :: "nat option"
  frame_callbacks :: "nat list"
  next_handle :: nat
  listeners :: "(signal \<times> js_value) list"
  step_calls :: "real list"
  resolve_calls :: nat

definition initial_state :: run_state where
  "initial_state =
     \<lparr>start = None, nextValueIterator = None, requestId = None, frame_callbacks = [],
      next_handle = 1, listeners = [], step_calls = [], resolve_calls = 0\<rparr>"

subsection \<open>Host primitives\<close>

text \<open>
  \<open>requestAnimationFrame\<close> stores the callback under a fresh positive handle and returns
  the handle; \<open>cancelAnimationFrame\<close> removes the callback stored under a handle and does
  nothing for \<open>undefined\<close> or an unknown handle. \<open>addEventListener\<close> does not register
  the same listener twice for one event type; \<open>removeEventListener\<close> removes the entry
  with the given type and the given listener, and does nothing when there is none.
\<close>

definition requestAnimationFrame :: "run_state \<Rightarrow> nat \<times> run_state" where
  "requestAnimationFrame s =
     (next_handle s,
      s\<lparr>frame_callbacks := frame_callbacks s @ [next_handle s],
        next_handle := next_handle s + 1\<rparr>)"

definition cancelAnimationFrame :: "nat option \<Rightarrow> run_state \<Rightarrow> run_state" where
  "cancelAnimationFrame handle s =
     (case handle of
        None \<Rightarrow> s
      | Some h \<Rightarrow> s\<lparr>frame_callbacks := removeAll h (frame_callbacks s)\<rparr>)"

definition addEventListener :: "signal \<Rightarrow> js_value \<Rightarrow> run_state \<Rightarrow> run_state" where
  "addEventListener type handler s =
     (if (type, handler) \<in> set (listeners s) then s
      else s\<lparr>listeners := listeners s @ [(type, handler)]\<rparr>)"

definition removeEventListener :: "signal \<Rightarrow> js_value \<Rightarrow> run_state \<Rightarrow> run_state" where
  "removeEventListener type handler s =
     s\<lparr>listeners := removeAll (type, handler) (listeners s)\<rparr>"

text \<open>The caller's callback and the promise's \<open>resolve\<close>, as the observations they leave.\<close>

definition step :: "real \<Rightarrow> run_state \<Rightarrow> run_state" where
  "step easingValue s = s\<lparr>step_calls := step_calls s @ [easingValue]\<rparr>"

definition resolve :: "run_state \<Rightarrow> run_state" where
  "resolve s = s\<lparr>resolve_calls := resolve_calls s + 1\<rparr>"

subsection \<open>The private functions of \<open>animate\<close>\<close>

text \<open>Lines 50-55 and 107-112; the target is the configured element in every call.\<close>

definition addListeners :: "js_value \<Rightarrow> run_state \<Rightarrow> run_state" where
  "addListeners handler s =
     addEventListener Keydown handler
       (addEventListener Mousedown handler
         (addEventListener Touchstart handler
           (addEventListener Wheel handler s)))"

definition removeListeners :: "js_value \<Rightarrow> run_state \<Rightarrow> run_state" where
  "removeListeners handler s =
     removeEventListener Keydown handler
       (removeEventListener Mousedown handler
         (removeEventListener Touchstart handler
           (removeEventListener Wheel handler s)))"

text \<open>Lines 63-70.\<close>

definition getEasingValueIterator :: "real \<Rightarrow> real \<Rightarrow> (real \<Rightarrow> real) \<Rightarrow> real \<Rightarrow> real" where
  "getEasingValueIterator startTime targetTime easingFn =
     (\<lambda>currentTime. easingFn (1 - (targetTime - (currentTime - startTime)) / targetTime))"

text \<open>Lines 81-82.\<close>

definition shouldContinue :: "real \<Rightarrow> real \<Rightarrow> real \<Rightarrow> bool" where
  "shouldContinue startTime currentTime targetTime \<longleftrightarrow> currentTime - startTime < targetTime"

text \<open>
  Line 84, \<open>start || timestamp\<close>: the left operand is returned unless it is falsy, and
  of the values a \<open>number | undefined\<close> variable holds here, \<open>undefined\<close> and \<open>0\<close> are
  falsy. Lines 85-86, \<open>nextValueIterator || getEasingValueIterator(...)\<close>: a function
  is never falsy.
\<close>

definition or_number :: "real option \<Rightarrow> real \<Rightarrow> real" where
  "or_number a b = (case a of None \<Rightarrow> b | Some x \<Rightarrow> if x = 0 then b else x)"

definition or_function :: "(real \<Rightarrow> real) option \<Rightarrow> (real \<Rightarrow> real) \<Rightarrow> real \<Rightarrow> real" where
  "or_function a b = (case a of None \<Rightarrow> b | Some f \<Rightarrow> f)"

text \<open>
  Lines 114-121. The handler is an ordinary \<open>function\<close>, so its \<open>this\<close> is supplied
  by each call; it is the parameter \<open>this\<close> here. \<open>resolve\<close> is called on every
  execution.
\<close>

definition animationCompleteHandler :: "AnimationOptions \<Rightarrow> js_value \<Rightarrow> run_state \<Rightarrow> run_state" where
  "animationCompleteHandler options this s =
     (let s1 = cancelAnimationFrame (requestId s) s;
          s2 = (if cancelOnUserAction options then removeListeners this s1 else s1)
      in resolve s2)"

text \<open>
  Lines 83-95. \<open>complete()\<close> on line 93 is a plain call of the handler from module
  (strict) code, so the handler's \<open>this\<close> is \<open>undefined\<close> there.
\<close>

definition frame :: "AnimationOptions \<Rightarrow> real \<Rightarrow> run_state \<Rightarrow> run_state" where
  "frame options timestamp s =
     (let start' = or_number (start s) timestamp;
          iterator = or_function (nextValueIterator s)
                       (getEasingValueIterator start' (duration options) (easing options));
          s1 = s\<lparr>start := Some start', nextValueIterator := Some iterator\<rparr>
      in if shouldContinue start' timestamp (duration options) then
           (let nextValue = iterator timestamp;
                s2 = step nextValue s1;
                (handle, s3) = requestAnimationFrame s2
            in s3\<lparr>requestId := Some handle\<rparr>)
         else animationCompleteHandler options Undefined (step 1 s1))"

text \<open>
  Lines 126-137, the promise's executor, which runs during the call of \<open>animate\<close>. The
  handle returned by the \<open>requestAnimationFrame\<close> of line 136 is not stored.
\<close>

definition animate_executor :: "AnimationOptions \<Rightarrow> run_state" where
  "animate_executor options =
     (let s1 = (if cancelOnUserAction options
                then addListeners AnimationCompleteHandlerRef initial_state
                else initial_state);
          (handle, s2) = requestAnimationFrame s1
      in s2)"

text \<open>
  The whole call: the contents of \<open>defaultOptions\<close> after it, and the state of the run
  it starts.
\<close>

definition animate ::
  "AnimationOptions \<Rightarrow> PartialAnimationOptions option \<Rightarrow> AnimationOptions \<times> run_state" where
  "animate defaults userOptions =
     (let (defaults', options) = merge_options defaults userOptions
      in (defaults', animate_executor options))"

subsection \<open>The host's event loop\<close>

text \<open>
  Between the call of \<open>animate\<close> and the end of the run the host does two things to it.
  On a display refresh with timestamp \<open>ts\<close> it takes the handles scheduled at that moment
  and, for each that has not been cancelled meanwhile, removes it and calls its callback
  with \<open>ts\<close>. When an interaction signal reaches the configured element it takes the
  listeners registered for that type at that moment and calls each that is still
  registered, with the element as \<open>this\<close>.
\<close>

datatype host_event = Tick real | Signal signal

fun run_frame_callbacks :: "AnimationOptions \<Rightarrow> real \<Rightarrow> nat list \<Rightarrow> run_state \<Rightarrow> run_state" where
  "run_frame_callbacks options ts [] s = s"
| "run_frame_callbacks options ts (h # hs) s =
     run_frame_callbacks options ts hs
       (if h \<in> set (frame_callbacks s)
        then frame options ts (s\<lparr>frame_callbacks := removeAll h (frame_callbacks s)\<rparr>)
        else s)"

definition call_listener :: "AnimationOptions \<Rightarrow> js_value \<Rightarrow> run_state \<Rightarrow> run_state" where
  "call_listener options l s =
     (case l of
        AnimationCompleteHandlerRef \<Rightarrow>
          animationCompleteHandler options (ElementRef (element options)) s
      | _ \<Rightarrow> s)"

fun dispatch_listeners ::
  "AnimationOptions \<Rightarrow> (signal \<times> js_value) list \<Rightarrow> run_state \<Rightarrow> run_state" where
  "dispatch_listeners options [] s = s"
| "dispatch_listeners options (l # ls) s =
     dispatch_listeners options ls
       (if l \<in> set (listeners s) then call_listener options (snd l) s else s)"

definition dispatchEvent :: "AnimationOptions \<Rightarrow> signal \<Rightarrow> run_state \<Rightarrow> run_state" where
  "dispatchEvent options type s =
     dispatch_listeners options (filter (\<lambda>l. fst l = type) (listeners s)) s"

fun host_step :: "AnimationOptions \<Rightarrow> host_event \<Rightarrow> run_state \<Rightarrow> run_state" where
  "host_step options (Tick ts) s = run_frame_callbacks options ts (frame_callbacks s) s"
| "host_step options (Signal type) s = dispatchEvent options type s"

text \<open>A run: the call of \<open>animate\<close> with effective options, then the host's events in order.\<close>

definition run :: "AnimationOptions \<Rightarrow> host_event list \<Rightarrow> run_state" where
  "run options events = fold (host_step options) events (animate_executor options)"

subsection \<open>Auxiliary notions for the properties\<close>

text \<open>The host's events without the interaction signals.\<close>

definition ticks_only :: "host_event list \<Rightarrow> host_event list" where
  "ticks_only events = filter (\<lambda>e. case e of Tick ts \<Rightarrow> True | Signal type \<Rightarrow> False) events"

text \<open>
  What \<open>addListeners\<close> leaves on an element without listeners: the run's handler under
  each of the four event types.
\<close>

definition registered_listeners :: "(signal \<times> js_value) list" where
  "registered_listeners =
     [(Wheel, AnimationCompleteHandlerRef), (Touchstart, AnimationCompleteHandlerRef),
      (Mousedown, AnimationCompleteHandlerRef), (Keydown, AnimationCompleteHandlerRef)]"

text \<open>The options object \<open>{}\<close>.\<close>

definition no_user_options :: PartialAnimationOptions where
  "no_user_options =
     \<lparr>user_cancelOnUserAction = None, user_element = None, user_easing = None,
      user_duration = None\<rparr>"

text \<open>
  The states of a run between the call of \<open>animate\<close> and the first tick: nothing has
  been recorded, the request of line 136 is scheduled, and the listeners are as
  \<open>animate\<close> left them.
\<close>

definition before_first_tick :: "AnimationOptions \<Rightarrow> run_state \<Rightarrow> bool" where
  "before_first_tick options s \<longleftrightarrow>
     start s = None \<and> nextValueIterator s = None \<and> requestId s = None
     \<and> frame_callbacks s = [1] \<and> step_calls s = []
     \<and> listeners s = (if cancelOnUserAction options then registered_listeners else [])"

text \<open>
  The timestamps of the ticks among the host's events, in order.
\<close>

definition tick_times :: "host_event list \<Rightarrow> real list" where
  "tick_times events = concat (map (\<lambda>e. case e of Tick ts \<Rightarrow> [ts] | Signal type \<Rightarrow> []) events)"

text \<open>
  The states of a run with first tick \<open>t0\<close> while its later ticks lie at or after \<open>t0\<close>
  and before \<open>t0 + duration\<close>: the iterator is the one created with \<open>t0\<close>, the variable
  \<open>start\<close> holds \<open>t0\<close> or, when \<open>t0\<close> is \<open>0\<close>, some later timestamp, and either nothing
  is scheduled or the one scheduled request is the one stored in \<open>requestId\<close>.
\<close>

definition after_first_tick :: "AnimationOptions \<Rightarrow> real \<Rightarrow> run_state \<Rightarrow> bool" where
  "after_first_tick options t0 s \<longleftrightarrow>
     nextValueIterator s = Some (getEasingValueIterator t0 (duration options) (easing options))
     \<and> (case start s of None \<Rightarrow> False | Some s0 \<Rightarrow> t0 \<le> s0 \<and> (t0 = 0 \<or> s0 = t0))
     \<and> (case frame_callbacks s of
          [] \<Rightarrow> True
        | h # hs \<Rightarrow> hs = [] \<and> requestId s = Some h)"

text \<open>
  The states of a run without cancellation on user action: no listener is registered, and
  the run is either unsettled with one scheduled callback or settled by one call of
  \<open>resolve\<close>, with nothing scheduled and \<open>1\<close> as the last argument of \<open>step\<close>.
\<close>

definition no_cancel_inv :: "run_state \<Rightarrow> bool" where
  "no_cancel_inv s \<longleftrightarrow>
     listeners s = [] \<and>
     (resolve_calls s = 0 \<and> length (frame_callbacks s) = 1
      \<or> resolve_calls s = 1 \<and> frame_callbacks s = [] \<and> step_calls s \<noteq> []
          \<and> last (step_calls s) = 1)"

section \<open>Unfolding rules\<close>

lemmas easing_defs =
  linear_easing_def easeInQuad_def easeOutQuad_def easeInOutQuad_def
  easeInCubic_def easeOutCubic_def easeInOutCubic_def
  easeInQuart_def easeOutQuart_def easeInOutQuart_def
  easeInQuint_def easeOutQuint_def easeInOutQuint_def

lemmas driver_defs =
  run_def animate_executor_def initial_state_def frame_def animationCompleteHandler_def
  addListeners_def removeListeners_def addEventListener_def removeEventListener_def
  requestAnimationFrame_def cancelAnimationFrame_def step_def resolve_def
  shouldContinue_def or_number_def or_function_def getEasingValueIterator_def
  dispatchEvent_def call_listener_def defaultOptions_def linear_easing_def Let_def

section \<open>Properties of the easing catalog\<close>

text \<open>
  C8. The exported easing catalog contains exactly the thirteen named entries of the
  specification's table, and for every real input \<open>t\<close> each entry equals its formula
  there. The statement lists the catalog's keys in order, each paired with the value of
  its function at \<open>t\<close>.
\<close>

theorem C8_catalog_formulas:
  "map (\<lambda>(name, f). (name, f t)) EasingFunctions =
     [(''linear'', t),
      (''easeInQuad'', t\<^sup>2),
      (''easeOutQuad'', t * (2 - t)),
      (''easeInOutQuad'', if t < 0.5 then 2 * t\<^sup>2 else - 1 + (4 - 2 * t) * t),
      (''easeInCubic'', t ^ 3),
      (''easeOutCubic'', (t - 1) ^ 3 + 1),
      (''easeInOutCubic'', if t < 0.5 then 4 * t ^ 3 else (t - 1) * (2 * t - 2)\<^sup>2 + 1),
      (''easeInQuart'', t ^ 4),
      (''easeOutQuart'', 1 - (t - 1) ^ 4),
      (''easeInOutQuart'', if t < 0.5 then 8 * t ^ 4 else 1 - 8 * (t - 1) ^ 4),
      (''easeInQuint'', t ^ 5),
      (''easeOutQuint'', 1 + (t - 1) ^ 5),
      (''easeInOutQuint'', if t < 0.5 then 16 * t ^ 5 else 1 + 16 * (t - 1) ^ 5)]"
  by (simp add: EasingFunctions_def easing_defs Let_def power2_eq_square
      power3_eq_cube power4_eq_xxxx eval_nat_numeral mult.assoc)

lemma in_catalog_cases:
  assumes "(name, f) \<in> set EasingFunctions"
  obtains "f = linear_easing" | "f = easeInQuad" | "f = easeOutQuad" | "f = easeInOutQuad"
    | "f = easeInCubic" | "f = easeOutCubic" | "f = easeInOutCubic"
    | "f = easeInQuart" | "f = easeOutQuart" | "f = easeInOutQuart"
    | "f = easeInQuint" | "f = easeOutQuint" | "f = easeInOutQuint"
  using assms unfolding EasingFunctions_def by auto

text \<open>
  C9. For every function \<open>f\<close> in the exported easing catalog, \<open>f 0 = 0\<close> and
  \<open>f 1 = 1\<close> exactly.
\<close>

theorem C9_endpoints:
  "(name, f) \<in> set EasingFunctions \<Longrightarrow> f 0 = 0 \<and> f 1 = 1"
  by (erule in_catalog_cases) (simp_all add: easing_defs)

theorem C9_endpoints_witness:
  "(''easeInOutQuint'', easeInOutQuint) \<in> set EasingFunctions
   \<and> easeInOutQuint 0 = 0 \<and> easeInOutQuint 1 = 1"
proof -
  have h: "(''easeInOutQuint'', easeInOutQuint) \<in> set EasingFunctions"
    by (simp add: EasingFunctions_def)
  from C9_endpoints [OF h] h show ?thesis by blast
qed

subsection \<open>Range of the curves on the unit interval\<close>

text \<open>
  The ease-out and the upper halves of the ease-in-out curves are rewritten in
  \<open>u = 1 - t\<close>, where each of them is \<open>1 - c * u ^ n\<close>.
\<close>

lemma unit_power_bounds:
  fixes u :: real
  assumes "0 \<le> u" "u \<le> 1"
  shows "0 \<le> u ^ n \<and> u ^ n \<le> 1"
  using assms by (simp add: power_le_one)

lemma half_power_bound:
  fixes u :: real
  assumes "0 \<le> u" "u \<le> 1 / 2"
  shows "u ^ n \<le> (1 / 2) ^ n"
  using assms by (rule power_mono[rotated])

lemma linear_range: "0 \<le> t \<Longrightarrow> t \<le> 1 \<Longrightarrow> 0 \<le> linear_easing t \<and> linear_easing t \<le> 1"
  by (simp add: linear_easing_def)

lemma easeIn_range:
  assumes "0 \<le> t" "t \<le> 1"
  shows "0 \<le> easeInQuad t \<and> easeInQuad t \<le> 1"
    and "0 \<le> easeInCubic t \<and> easeInCubic t \<le> 1"
    and "0 \<le> easeInQuart t \<and> easeInQuart t \<le> 1"
    and "0 \<le> easeInQuint t \<and> easeInQuint t \<le> 1"
proof -
  have eq: "easeInQuad t = t ^ 2" "easeInCubic t = t ^ 3" "easeInQuart t = t ^ 4" "easeInQuint t = t ^ 5"
    by (simp_all add: easing_defs eval_nat_numeral mult.assoc)
  note b = unit_power_bounds[OF assms]
  show "0 \<le> easeInQuad t \<and> easeInQuad t \<le> 1"
    using b[of 2] unfolding eq by simp
  show "0 \<le> easeInCubic t \<and> easeInCubic t \<le> 1"
    using b[of 3] unfolding eq by simp
  show "0 \<le> easeInQuart t \<and> easeInQuart t \<le> 1"
    using b[of 4] unfolding eq by simp
  show "0 \<le> easeInQuint t \<and> easeInQuint t \<le> 1"
    using b[of 5] unfolding eq by simp
qed

lemma easeOut_range:
  assumes "0 \<le> t" "t \<le> 1"
  shows "0 \<le> easeOutQuad t \<and> easeOutQuad t \<le> 1"
    and "0 \<le> easeOutCubic t \<and> easeOutCubic t \<le> 1"
    and "0 \<le> easeOutQuart t \<and> easeOutQuart t \<le> 1"
    and "0 \<le> easeOutQuint t \<and> easeOutQuint t \<le> 1"
proof -
  define u where "u = 1 - t"
  have u: "0 \<le> u" "u \<le> 1" using assms by (simp_all add: u_def)
  have t: "t = 1 - u" by (simp add: u_def)
  have eq: "easeOutQuad t = 1 - u ^ 2" "easeOutCubic t = 1 - u ^ 3"
    "easeOutQuart t = 1 - u ^ 4" "easeOutQuint t = 1 - u ^ 5"
    unfolding t by (simp_all add: easing_defs Let_def eval_nat_numeral algebra_simps)
  note b = unit_power_bounds[OF u]
  show "0 \<le> easeOutQuad t \<and> easeOutQuad t \<le> 1"
    using b[of 2] unfolding eq by simp
  show "0 \<le> easeOutCubic t \<and> easeOutCubic t \<le> 1"
    using b[of 3] unfolding eq by simp
  show "0 \<le> easeOutQuart t \<and> easeOutQuart t \<le> 1"
    using b[of 4] unfolding eq by simp
  show "0 \<le> easeOutQuint t \<and> easeOutQuint t \<le> 1"
    using b[of 5] unfolding eq by simp
qed

lemma easeInOut_low:
  assumes "0 \<le> t" "t < 1 / 2"
  shows "0 \<le> easeInOutQuad t \<and> easeInOutQuad t \<le> 1"
    and "0 \<le> easeInOutCubic t \<and> easeInOutCubic t \<le> 1"
    and "0 \<le> easeInOutQuart t \<and> easeInOutQuart t \<le> 1"
    and "0 \<le> easeInOutQuint t \<and> easeInOutQuint t \<le> 1"
proof -
  have le: "t \<le> 1 / 2" using assms by simp
  have eq: "easeInOutQuad t = 2 * t ^ 2" "easeInOutCubic t = 4 * t ^ 3"
    "easeInOutQuart t = 8 * t ^ 4" "easeInOutQuint t = 16 * t ^ 5"
    using assms by (simp_all add: easing_defs eval_nat_numeral mult.assoc)
  have p: "0 \<le> t ^ n" for n using assms by simp
  have b: "t ^ 2 \<le> (1/2) ^ 2" "t ^ 3 \<le> (1/2) ^ 3" "t ^ 4 \<le> (1/2) ^ 4" "t ^ 5 \<le> (1/2) ^ 5"
    using half_power_bound[OF assms(1) le] by blast+
  show "0 \<le> easeInOutQuad t \<and> easeInOutQuad t \<le> 1"
    using p[of 2] b(1) unfolding eq by (simp add: power_divide)
  show "0 \<le> easeInOutCubic t \<and> easeInOutCubic t \<le> 1"
    using p[of 3] b(2) unfolding eq by (simp add: power_divide)
  show "0 \<le> easeInOutQuart t \<and> easeInOutQuart t \<le> 1"
    using p[of 4] b(3) unfolding eq by (simp add: power_divide)
  show "0 \<le> easeInOutQuint t \<and> easeInOutQuint t \<le> 1"
    using p[of 5] b(4) unfolding eq by (simp add: power_divide)
qed

lemma easeInOut_high:
  assumes "1 / 2 \<le> t" "t \<le> 1"
  shows "0 \<le> easeInOutQuad t \<and> easeInOutQuad t \<le> 1"
    and "0 \<le> easeInOutCubic t \<and> easeInOutCubic t \<le> 1"
    and "0 \<le> easeInOutQuart t \<and> easeInOutQuart t \<le> 1"
    and "0 \<le> easeInOutQuint t \<and> easeInOutQuint t \<le> 1"
proof -
  define u where "u = 1 - t"
  have u: "0 \<le> u" "u \<le> 1 / 2" using assms by (simp_all add: u_def)
  have t: "t = 1 - u" by (simp add: u_def)
  have nl: "\<not> 1 - u < 1 / 2" using u by simp
  have eq: "easeInOutQuad t = 1 - 2 * u ^ 2" "easeInOutCubic t = 1 - 4 * u ^ 3"
    "easeInOutQuart t = 1 - 8 * u ^ 4" "easeInOutQuint t = 1 - 16 * u ^ 5"
    unfolding t using nl by (simp_all add: easing_defs Let_def eval_nat_numeral algebra_simps)
  have p: "0 \<le> u ^ n" for n using u by simp
  have b: "u ^ 2 \<le> (1/2) ^ 2" "u ^ 3 \<le> (1/2) ^ 3" "u ^ 4 \<le> (1/2) ^ 4" "u ^ 5 \<le> (1/2) ^ 5"
    using half_power_bound[OF u] by blast+
  show "0 \<le> easeInOutQuad t \<and> easeInOutQuad t \<le> 1"
    using p[of 2] b(1) unfolding eq by (simp add: power_divide)
  show "0 \<le> easeInOutCubic t \<and> easeInOutCubic t \<le> 1"
    using p[of 3] b(2) unfolding eq by (simp add: power_divide)
  show "0 \<le> easeInOutQuart t \<and> easeInOutQuart t \<le> 1"
    using p[of 4] b(3) unfolding eq by (simp add: power_divide)
  show "0 \<le> easeInOutQuint t \<and> easeInOutQuint t \<le> 1"
    using p[of 5] b(4) unfolding eq by (simp add: power_divide)
qed

lemma easeInOut_range:
  assumes "0 \<le> t" "t \<le> 1"
  shows "0 \<le> easeInOutQuad t \<and> easeInOutQuad t \<le> 1"
    and "0 \<le> easeInOutCubic t \<and> easeInOutCubic t \<le> 1"
    and "0 \<le> easeInOutQuart t \<and> easeInOutQuart t \<le> 1"
    and "0 \<le> easeInOutQuint t \<and> easeInOutQuint t \<le> 1"
  using easeInOut_low[OF assms(1)] easeInOut_high[OF _ assms(2)]
  by (cases "t < 1 / 2"; simp)+

text \<open>
  C10. For every function \<open>f\<close> in the exported easing catalog and every \<open>t\<close> with
  \<open>0 \<le> t \<le> 1\<close>, the output satisfies \<open>0 \<le> f t \<le> 1\<close>: none of the thirteen
  curves leaves the unit interval on in-range inputs.
\<close>

theorem C10_unit_range:
  "(name, f) \<in> set EasingFunctions \<Longrightarrow> 0 \<le> t \<Longrightarrow> t \<le> 1 \<Longrightarrow> 0 \<le> f t \<and> f t \<le> 1"
  by (erule in_catalog_cases)
    (simp_all only: linear_range easeIn_range easeOut_range easeInOut_range)

theorem C10_unit_range_witness:
  "(''easeInOutCubic'', easeInOutCubic) \<in> set EasingFunctions
   \<and> (0::real) \<le> 3 / 4 \<and> (3 / 4 :: real) \<le> 1
   \<and> 0 \<le> easeInOutCubic (3 / 4) \<and> easeInOutCubic (3 / 4) \<le> 1
   \<and> easeInOutCubic (3 / 4) = 15 / 16"
proof -
  have h: "(''easeInOutCubic'', easeInOutCubic) \<in> set EasingFunctions"
    by (simp add: EasingFunctions_def)
  have v: "easeInOutCubic (3 / 4) = 15 / 16"
    by (simp add: easeInOutCubic_def)
  from C10_unit_range [OF h, of "3 / 4"] h v show ?thesis by simp
qed

section \<open>Properties of the animation driver\<close>

subsection \<open>The effective configuration\<close>

text \<open>
  On a freshly loaded module the merge gives what the documentation promises: a missing
  argument or an empty object yields the defaults, and a supplied field overrides its
  default only.
\<close>

lemma first_call_takes_defaults:
  "snd (merge_options defaultOptions None) = defaultOptions"
  "snd (merge_options defaultOptions (Some no_user_options)) = defaultOptions"
  "duration (snd (merge_options defaultOptions (Some (no_user_options\<lparr>user_duration := Some d\<rparr>)))) = d"
  "cancelOnUserAction (snd (merge_options defaultOptions (Some (no_user_options\<lparr>user_duration := Some d\<rparr>))))"
  by (simp_all add: merge_options_def Object_assign_def no_user_options_def defaultOptions_def
      Let_def)

text \<open>
  C4. For every call to \<open>animate\<close> the effective configuration is a fresh merged value,
  fields missing from the caller's options take the documented defaults, and the shared
  default-options object is left unchanged by the call, so that no configuration leaks
  into a later call. The code does not behave so: the call
  \<open>animate(step, {cancelOnUserAction: false, duration: 300})\<close> on a freshly loaded module
  leaves \<open>defaultOptions\<close> with \<open>cancelOnUserAction = false\<close> and \<open>duration = 300\<close>,
  and a following \<open>animate(step, {})\<close> runs with duration \<open>300\<close> instead of \<open>1000\<close>
  and registers no listener, although \<open>cancelOnUserAction\<close> is documented to default to
  \<open>true\<close>.
\<close>

theorem C4_defaults_overwritten:
  "fst (merge_options defaultOptions
         (Some (no_user_options\<lparr>user_cancelOnUserAction := Some False, user_duration := Some 300\<rparr>)))
     = defaultOptions\<lparr>cancelOnUserAction := False, duration := 300\<rparr>
   \<and> duration (snd (merge_options
         (fst (animate defaultOptions
            (Some (no_user_options\<lparr>user_cancelOnUserAction := Some False, user_duration := Some 300\<rparr>))))
         (Some no_user_options))) = 300
   \<and> \<not> cancelOnUserAction (snd (merge_options
         (fst (animate defaultOptions
            (Some (no_user_options\<lparr>user_cancelOnUserAction := Some False, user_duration := Some 300\<rparr>))))
         (Some no_user_options)))
   \<and> listeners (snd (animate
         (fst (animate defaultOptions
            (Some (no_user_options\<lparr>user_cancelOnUserAction := Some False, user_duration := Some 300\<rparr>))))
         (Some no_user_options))) = []"
  by (simp add: animate_def merge_options_def Object_assign_def no_user_options_def
      defaultOptions_def animate_executor_def initial_state_def requestAnimationFrame_def
      Let_def)

subsection \<open>One tick\<close>

text \<open>
  A tick on which the deadline test of line 87 fails calls \<open>step(1)\<close> and then the
  completion handler, which calls \<open>resolve\<close> once and leaves the calls of \<open>step\<close> as
  they are. A run whose duration is not positive ends so on its first tick, whatever
  signals arrive before it.
\<close>

lemma run_snoc: "run options (events @ [e]) = host_step options e (run options events)"
  by (simp add: run_def)

lemma frame_deadline:
  assumes "duration options \<le> timestamp - or_number (start s) timestamp"
  shows "frame options timestamp s =
           animationCompleteHandler options Undefined
             (step 1 (s\<lparr>start := Some (or_number (start s) timestamp),
                        nextValueIterator :=
                          Some (or_function (nextValueIterator s)
                                  (getEasingValueIterator (or_number (start s) timestamp)
                                     (duration options) (easing options)))\<rparr>))"
  using assms by (simp add: frame_def shouldContinue_def Let_def)

lemma handler_observations:
  "step_calls (animationCompleteHandler options this s) = step_calls s"
  "resolve_calls (animationCompleteHandler options this s) = resolve_calls s + 1"
  by (simp_all add: animationCompleteHandler_def removeListeners_def removeEventListener_def
      cancelAnimationFrame_def resolve_def Let_def split: option.splits)

lemma executor_before_first_tick:
  "before_first_tick options (animate_executor options)"
  "resolve_calls (animate_executor options) = 0"
  by (simp_all add: before_first_tick_def animate_executor_def initial_state_def
      addListeners_def addEventListener_def requestAnimationFrame_def
      registered_listeners_def)

lemma signal_before_first_tick:
  assumes "before_first_tick options s"
  shows "before_first_tick options (host_step options (Signal type) s)"
    and "resolve_calls (host_step options (Signal type) s) =
           resolve_calls s + (if cancelOnUserAction options then 1 else 0)"
  using assms
  by (cases type;
      simp add: before_first_tick_def dispatchEvent_def call_listener_def
        animationCompleteHandler_def removeListeners_def removeEventListener_def
        cancelAnimationFrame_def resolve_def registered_listeners_def Let_def)+

lemma signals_before_first_tick:
  assumes "before_first_tick options s"
  shows "before_first_tick options (fold (host_step options) (map Signal signals) s)
    \<and> resolve_calls (fold (host_step options) (map Signal signals) s) =
        resolve_calls s + (if cancelOnUserAction options then length signals else 0)"
  using assms
proof (induction signals arbitrary: s)
  case Nil
  then show ?case by simp
next
  case (Cons type signals)
  from Cons.IH [OF signal_before_first_tick(1) [OF Cons.prems, of type]]
    signal_before_first_tick(2) [OF Cons.prems, of type]
  show ?case by simp
qed

lemma first_tick_nonpositive_state:
  assumes "before_first_tick options s" "duration options \<le> 0"
  shows "step_calls (host_step options (Tick ts) s) = [1]"
    and "resolve_calls (host_step options (Tick ts) s) = resolve_calls s + 1"
    and "frame_callbacks (host_step options (Tick ts) s) = []"
  using assms
  by (simp_all add: before_first_tick_def frame_def animationCompleteHandler_def
      removeListeners_def removeEventListener_def cancelAnimationFrame_def step_def
      resolve_def shouldContinue_def or_number_def or_function_def Let_def)

lemma first_tick_nonpositive:
  assumes "duration options \<le> 0"
  shows "step_calls (run options (map Signal signals @ [Tick ts])) = [1]"
    and "resolve_calls (run options (map Signal signals @ [Tick ts])) =
           (if cancelOnUserAction options then length signals else 0) + 1"
    and "frame_callbacks (run options (map Signal signals @ [Tick ts])) = []"
proof -
  let ?s = "fold (host_step options) (map Signal signals) (animate_executor options)"
  have b: "before_first_tick options ?s"
    and r: "resolve_calls ?s = (if cancelOnUserAction options then length signals else 0)"
    using signals_before_first_tick [OF executor_before_first_tick(1), of options signals]
    by (simp_all add: executor_before_first_tick(2))
  have run: "run options (map Signal signals @ [Tick ts]) = host_step options (Tick ts) ?s"
    by (simp add: run_def)
  show "step_calls (run options (map Signal signals @ [Tick ts])) = [1]"
    unfolding run by (rule first_tick_nonpositive_state [OF b assms])
  show "resolve_calls (run options (map Signal signals @ [Tick ts])) =
           (if cancelOnUserAction options then length signals else 0) + 1"
    unfolding run using first_tick_nonpositive_state(2) [OF b assms, of ts] r by simp
  show "frame_callbacks (run options (map Signal signals @ [Tick ts])) = []"
    unfolding run by (rule first_tick_nonpositive_state [OF b assms])
qed

subsection \<open>The start timestamp, the deadline and the value passed to \<open>step\<close>\<close>

text \<open>
  The start of a run is the timestamp of its first tick. The iterator of lines 63-70 is
  created on the first tick and keeps that timestamp as its \<open>startTime\<close>; for a positive
  duration its elapsed fraction is \<open>(currentTime - startTime) / targetTime\<close>. The
  variable \<open>start\<close>, which the deadline test of line 87 reads, is assigned on every tick
  by line 84 and keeps a recorded value that is not \<open>0\<close>; with such a start a tick at or
  after the deadline calls \<open>step(1)\<close> and resolves the promise.
\<close>

lemma iterator_fraction:
  "0 < targetTime \<Longrightarrow>
   getEasingValueIterator startTime targetTime easingFn currentTime =
     easingFn ((currentTime - startTime) / targetTime)"
  by (simp add: getEasingValueIterator_def field_simps)

lemma first_frame_value:
  assumes "start s = None" "nextValueIterator s = None" "0 < duration options"
  shows "step_calls (frame options ts s) =
           step_calls s @ [easing options (1 - (duration options - (ts - ts)) / duration options)]"
    and "or_number (start s) ts = ts"
    and "nextValueIterator (frame options ts s) =
           Some (getEasingValueIterator ts (duration options) (easing options))"
  using assms
  by (simp_all add: frame_def or_number_def or_function_def shouldContinue_def step_def
      requestAnimationFrame_def getEasingValueIterator_def Let_def)

lemma later_frame_value:
  assumes "start s = Some s0" "s0 \<noteq> 0"
    "nextValueIterator s = Some (getEasingValueIterator s0 (duration options) (easing options))"
    "ts - s0 < duration options"
  shows "step_calls (frame options ts s) =
           step_calls s @ [easing options (1 - (duration options - (ts - s0)) / duration options)]"
    and "start (frame options ts s) = Some s0"
    and "nextValueIterator (frame options ts s) = nextValueIterator s"
  using assms
  by (simp_all add: frame_def or_number_def or_function_def shouldContinue_def step_def
      requestAnimationFrame_def getEasingValueIterator_def Let_def)

lemma start_kept_when_nonzero:
  "start s = Some s0 \<Longrightarrow> s0 \<noteq> 0 \<Longrightarrow> start (frame options ts s) = Some s0"
  by (simp add: frame_def or_number_def animationCompleteHandler_def removeListeners_def
      removeEventListener_def cancelAnimationFrame_def resolve_def step_def
      requestAnimationFrame_def Let_def split: option.splits)

lemma deadline_when_start_kept:
  assumes "start s = Some s0" "s0 \<noteq> 0" "duration options \<le> ts - s0"
  shows "step_calls (frame options ts s) = step_calls s @ [1]"
    and "resolve_calls (frame options ts s) = resolve_calls s + 1"
    and "start (frame options ts s) = Some s0"
proof -
  have o: "or_number (start s) ts = s0"
    using assms by (simp add: or_number_def)
  have dl: "duration options \<le> ts - or_number (start s) ts"
    using assms(3) o by simp
  show "step_calls (frame options ts s) = step_calls s @ [1]"
    by (simp add: frame_deadline [OF dl] handler_observations step_def)
  show "resolve_calls (frame options ts s) = resolve_calls s + 1"
    by (simp add: frame_deadline [OF dl] handler_observations step_def)
  show "start (frame options ts s) = Some s0"
    using assms(1,2) by (rule start_kept_when_nonzero)
qed

text \<open>
  C7. For every run the start timestamp is recorded on the first tick only and remains
  fixed for all subsequent ticks, for every first-tick timestamp, including \<open>0\<close>. The code
  does not behave so for a first timestamp of \<open>0\<close>: with the default options and ticks at
  \<open>0\<close> and \<open>16\<close>, \<open>start\<close> is \<open>0\<close> after the first tick and \<open>16\<close> after the second,
  because line 84 takes the recorded \<open>0\<close> for a missing value.
\<close>

theorem C7_start_reassigned_after_zero:
  "start (animate_executor defaultOptions) = None
   \<and> start (run defaultOptions [Tick 0]) = Some 0
   \<and> start (run defaultOptions [Tick 0, Tick 16]) = Some 16"
  by (simp add: driver_defs)

text \<open>
  C1. On the first tick whose timestamp \<open>ts\<close> satisfies \<open>ts - start \<ge> duration\<close>, where
  \<open>start\<close> is the timestamp recorded on the first tick, \<open>step\<close> is called with exactly
  \<open>1\<close> and the completion handler runs; in particular a run with \<open>duration \<le> 0\<close>
  completes on its first tick with the single call \<open>step(1)\<close>. The code does not behave
  so when the first timestamp is \<open>0\<close>: with duration \<open>64\<close> and ticks at \<open>0\<close> and
  \<open>80\<close>, line 84 takes the recorded \<open>0\<close> for a missing value and sets \<open>start\<close> to
  \<open>80\<close> on the second tick, the test \<open>80 - 80 < 64\<close> of line 87 passes, \<open>step\<close>
  receives \<open>1 - (64 - (80 - 0)) / 64 = 5 / 4\<close>, the promise is not resolved and another
  callback is scheduled, although \<open>80 - 0 \<ge> 64\<close>.
\<close>

theorem C1_deadline_missed_after_zero:
  "start (run (defaultOptions\<lparr>duration := 64\<rparr>) [Tick 0]) = Some 0
   \<and> duration (defaultOptions\<lparr>duration := 64\<rparr>) \<le> 80 - 0
   \<and> start (run (defaultOptions\<lparr>duration := 64\<rparr>) [Tick 0, Tick 80]) = Some 80
   \<and> step_calls (run (defaultOptions\<lparr>duration := 64\<rparr>) [Tick 0, Tick 80]) = [0, 5 / 4]
   \<and> resolve_calls (run (defaultOptions\<lparr>duration := 64\<rparr>) [Tick 0, Tick 80]) = 0
   \<and> frame_callbacks (run (defaultOptions\<lparr>duration := 64\<rparr>) [Tick 0, Tick 80]) = [3]"
  by (simp add: driver_defs)

text \<open>
  The run before its deadline. Signals leave the recorded start, the iterator and the calls
  of \<open>step\<close> as they are and at most cancel the scheduled request; a tick with a
  scheduled request passes the iterator's value and schedules the next request.
\<close>

lemma handler_after_first_tick:
  assumes "after_first_tick options t0 s"
  shows "after_first_tick options t0 (animationCompleteHandler options this s)"
  using assms
  by (auto simp: after_first_tick_def animationCompleteHandler_def removeListeners_def
      removeEventListener_def cancelAnimationFrame_def resolve_def Let_def
      split: option.splits list.splits)

lemma dispatch_after_first_tick:
  "after_first_tick options t0 s \<Longrightarrow>
   after_first_tick options t0 (dispatch_listeners options ls s)
   \<and> step_calls (dispatch_listeners options ls s) = step_calls s"
proof (induction ls arbitrary: s)
  case Nil
  then show ?case by simp
next
  case (Cons l ls)
  have a: "after_first_tick options t0 (call_listener options (snd l) s)"
    using Cons.prems by (simp add: call_listener_def handler_after_first_tick split: js_value.splits)
  have b: "step_calls (call_listener options (snd l) s) = step_calls s"
    by (simp add: call_listener_def handler_observations split: js_value.splits)
  show ?case
    using Cons.IH [OF a] Cons.IH [OF Cons.prems] b by simp
qed

lemma signal_after_first_tick:
  assumes "after_first_tick options t0 s"
  shows "after_first_tick options t0 (host_step options (Signal type) s)"
    and "step_calls (host_step options (Signal type) s) = step_calls s"
  using dispatch_after_first_tick [OF assms] by (simp_all add: dispatchEvent_def)

lemma frame_before_deadline:
  assumes inv: "nextValueIterator s =
                  Some (getEasingValueIterator t0 (duration options) (easing options))"
    and st: "start s = Some s0" "t0 \<le> s0" "t0 = 0 \<or> s0 = t0"
    and ts: "t0 \<le> ts" "ts - t0 < duration options"
  shows "step_calls (frame options ts s) =
           step_calls s @ [easing options (1 - (duration options - (ts - t0)) / duration options)]"
    and "nextValueIterator (frame options ts s) = nextValueIterator s"
    and "start (frame options ts s) = Some (or_number (Some s0) ts)"
    and "t0 \<le> or_number (Some s0) ts"
    and "t0 = 0 \<or> or_number (Some s0) ts = t0"
    and "frame_callbacks (frame options ts s) = frame_callbacks s @ [next_handle s]"
    and "requestId (frame options ts s) = Some (next_handle s)"
proof -
  have c: "shouldContinue (or_number (Some s0) ts) ts (duration options)"
    using st ts by (auto simp: shouldContinue_def or_number_def)
  show "step_calls (frame options ts s) =
           step_calls s @ [easing options (1 - (duration options - (ts - t0)) / duration options)]"
    using c inv st(1)
    by (simp add: frame_def or_function_def step_def requestAnimationFrame_def
        getEasingValueIterator_def Let_def)
  show "nextValueIterator (frame options ts s) = nextValueIterator s"
    using c inv st(1)
    by (simp add: frame_def or_function_def step_def requestAnimationFrame_def Let_def)
  show "start (frame options ts s) = Some (or_number (Some s0) ts)"
    using c st(1)
    by (simp add: frame_def or_function_def step_def requestAnimationFrame_def Let_def)
  show "t0 \<le> or_number (Some s0) ts"
    using st ts by (simp add: or_number_def)
  show "t0 = 0 \<or> or_number (Some s0) ts = t0"
    using st by (auto simp: or_number_def)
  show "frame_callbacks (frame options ts s) = frame_callbacks s @ [next_handle s]"
    using c st(1)
    by (simp add: frame_def or_function_def step_def requestAnimationFrame_def Let_def)
  show "requestId (frame options ts s) = Some (next_handle s)"
    using c st(1)
    by (simp add: frame_def or_function_def step_def requestAnimationFrame_def Let_def)
qed

lemma tick_after_first_tick:
  assumes inv: "after_first_tick options t0 s"
    and ts: "t0 \<le> ts" "ts - t0 < duration options"
  shows "after_first_tick options t0 (host_step options (Tick ts) s)
    \<and> step_calls (host_step options (Tick ts) s) =
           step_calls s @
             (if frame_callbacks s = [] then []
              else [easing options (1 - (duration options - (ts - t0)) / duration options)])
    \<and> (frame_callbacks s \<noteq> [] \<longrightarrow> frame_callbacks (host_step options (Tick ts) s) \<noteq> [])"
proof (cases "frame_callbacks s")
  case Nil
  then show ?thesis using inv by simp
next
  case (Cons h hs)
  from inv obtain s0 where s0: "start s = Some s0" "t0 \<le> s0" "t0 = 0 \<or> s0 = t0"
    by (auto simp: after_first_tick_def split: option.splits)
  from inv have it: "nextValueIterator s =
      Some (getEasingValueIterator t0 (duration options) (easing options))"
    by (simp add: after_first_tick_def)
  from Cons inv have hs: "hs = []" by (simp add: after_first_tick_def)
  let ?s = "s\<lparr>frame_callbacks := []\<rparr>"
  have hst: "host_step options (Tick ts) s = frame options ts ?s"
    using Cons hs by simp
  note f = frame_before_deadline [of ?s t0 options s0 ts, simplified, OF it s0 ts]
  have "after_first_tick options t0 (frame options ts ?s)"
    using f it by (simp add: after_first_tick_def)
  moreover have "step_calls (frame options ts ?s) =
      step_calls s @ [easing options (1 - (duration options - (ts - t0)) / duration options)]"
    using f(1) by simp
  moreover have "frame_callbacks (frame options ts ?s) \<noteq> []"
    using f by simp
  ultimately show ?thesis
    unfolding hst using Cons by simp
qed

lemma first_tick_positive:
  assumes "before_first_tick options s" "0 < duration options"
  shows "after_first_tick options ts (host_step options (Tick ts) s)"
    and "step_calls (host_step options (Tick ts) s) =
           [easing options (1 - (duration options - (ts - ts)) / duration options)]"
    and "frame_callbacks (host_step options (Tick ts) s) \<noteq> []"
  using assms
  by (simp_all add: before_first_tick_def after_first_tick_def frame_def step_def
      requestAnimationFrame_def shouldContinue_def or_number_def or_function_def
      getEasingValueIterator_def Let_def)

lemma tick_times_snoc:
  "tick_times (events @ [Tick ts]) = tick_times events @ [ts]"
  "tick_times (events @ [Signal type]) = tick_times events"
  "tick_times [] = []"
  "tick_times (map Tick tss) = tss"
  by (simp_all add: tick_times_def) (induction tss; simp)

lemma run_state_by_ticks:
  assumes d: "0 < duration options"
  shows "(tick_times events = [] \<longrightarrow> before_first_tick options (run options events))
    \<and> (\<forall>t0 tss. tick_times events = t0 # tss
          \<and> (\<forall>t \<in> set tss. t0 \<le> t \<and> t - t0 < duration options)
          \<longrightarrow> after_first_tick options t0 (run options events))"
proof (induction events rule: rev_induct)
  case Nil
  then show ?case
    by (simp add: tick_times_snoc run_def executor_before_first_tick)
next
  case (snoc e events)
  show ?case
  proof (cases e)
    case (Signal type)
    then show ?thesis
      using snoc signal_before_first_tick(1) [of options "run options events" type]
        signal_after_first_tick(1) [of options _ "run options events" type]
      by (simp add: tick_times_snoc run_snoc del: host_step.simps)
  next
    case (Tick ts)
    show ?thesis
    proof (cases "tick_times events")
      case Nil
      with snoc have b: "before_first_tick options (run options events)" by simp
      show ?thesis
        using first_tick_positive(1) [OF b d, of ts] Nil Tick
        by (simp add: tick_times_snoc run_snoc del: host_step.simps)
    next
      case (Cons t0 tss)
      show ?thesis
      proof (intro conjI impI allI)
        assume "tick_times (events @ [e]) = []"
        then show "before_first_tick options (run options (events @ [e]))"
          using Cons Tick by (simp add: tick_times_snoc)
      next
        fix t0' tss'
        assume a: "tick_times (events @ [e]) = t0' # tss'
          \<and> (\<forall>t \<in> set tss'. t0' \<le> t \<and> t - t0' < duration options)"
        then have eq: "t0' = t0" "tss' = tss @ [ts]"
          using Cons Tick by (simp_all add: tick_times_snoc)
        with a have bt: "\<forall>t \<in> set tss. t0 \<le> t \<and> t - t0 < duration options"
          and bts: "t0 \<le> ts" "ts - t0 < duration options"
          by simp_all
        from snoc Cons bt have "after_first_tick options t0 (run options events)"
          by simp
        from tick_after_first_tick [OF this bts]
        show "after_first_tick options t0' (run options (events @ [e]))"
          using Tick eq by (simp add: run_snoc del: host_step.simps)
      qed
    qed
  qed
qed

lemma tick_value_in_run:
  assumes d: "0 < duration options"
    and tt: "tick_times (events @ [Tick ts]) = t0 # tss"
    and b: "\<forall>t \<in> set tss. t0 \<le> t \<and> t - t0 < duration options"
  shows "step_calls (run options (events @ [Tick ts])) =
           step_calls (run options events) @
             (if frame_callbacks (run options events) = [] then []
              else [easing options (1 - (duration options - (ts - t0)) / duration options)])"
proof (cases "tick_times events")
  case Nil
  with tt have t0: "t0 = ts" by (simp add: tick_times_snoc)
  from Nil run_state_by_ticks [OF d, of events]
  have bf: "before_first_tick options (run options events)" by simp
  then have "step_calls (run options events) = []" "frame_callbacks (run options events) \<noteq> []"
    by (simp_all add: before_first_tick_def)
  with first_tick_positive(2) [OF bf d, of ts] show ?thesis
    unfolding run_snoc t0 by simp
next
  case (Cons t0' tss')
  with tt have eq: "t0' = t0" "tss = tss' @ [ts]" by (simp_all add: tick_times_snoc)
  with b have bt: "\<forall>t \<in> set tss'. t0 \<le> t \<and> t - t0 < duration options"
    and bts: "t0 \<le> ts" "ts - t0 < duration options"
    by simp_all
  from run_state_by_ticks [OF d, of events] Cons eq bt
  have "after_first_tick options t0 (run options events)" by simp
  from tick_after_first_tick [OF this bts] show ?thesis
    unfolding run_snoc by simp
qed

lemma ticks_only_run_live:
  assumes d: "0 < duration options"
    and b: "\<forall>t \<in> set tss. t0 \<le> t \<and> t - t0 < duration options"
  shows "step_calls (run options (map Tick (t0 # tss))) =
           map (\<lambda>t. easing options (1 - (duration options - (t - t0)) / duration options))
             (t0 # tss)
    \<and> frame_callbacks (run options (map Tick (t0 # tss))) \<noteq> []"
  using b
proof (induction tss rule: rev_induct)
  case Nil
  show ?case
    using first_tick_positive(2,3) [OF executor_before_first_tick(1) d, of t0]
    by (simp add: run_def)
next
  case (snoc ts tss)
  then have bt: "\<forall>t \<in> set tss. t0 \<le> t \<and> t - t0 < duration options"
    and bts: "t0 \<le> ts" "ts - t0 < duration options"
    by simp_all
  note ih = snoc.IH [OF bt]
  have tt: "tick_times (map Tick (t0 # tss)) = t0 # tss"
    using tick_times_snoc(4) [of "t0 # tss"] by simp
  with run_state_by_ticks [OF d, of "map Tick (t0 # tss)"] bt
  have "after_first_tick options t0 (run options (map Tick (t0 # tss)))" by simp
  from tick_after_first_tick [OF this bts] ih
  have "step_calls (run options (map Tick (t0 # tss) @ [Tick ts])) =
           map (\<lambda>t. easing options (1 - (duration options - (t - t0)) / duration options))
             (t0 # tss @ [ts])
    \<and> frame_callbacks (run options (map Tick (t0 # tss) @ [Tick ts])) \<noteq> []"
    unfolding run_snoc by simp
  then show ?case by simp
qed

text \<open>
  C5. On every tick strictly before the deadline (\<open>ts - start < duration\<close>, with
  \<open>start\<close> the timestamp \<open>t0\<close> of the run's first tick) the value passed to \<open>step\<close> is
  \<open>easing (1 - (duration - (ts - start)) / duration)\<close>, and for \<open>duration > 0\<close> the
  argument equals \<open>(ts - start) / duration\<close>. The run has a positive duration and its
  ticks, whose timestamps the frame clock never lets fall below the first, all lie before
  the deadline; \<open>t0 = 0\<close> is included. Whatever signals are interleaved, a tick that
  finds a request of the run scheduled appends exactly that value to the calls of
  \<open>step\<close> (a tick of a run cancelled earlier calls nothing), and a run of ticks alone
  passes the values of all its ticks, in order.
\<close>

theorem C5_value_before_deadline:
  assumes "0 < duration options"
    and "tick_times (events @ [Tick ts]) = t0 # tss"
    and "\<forall>t \<in> set tss. t0 \<le> t \<and> t - t0 < duration options"
  shows "step_calls (run options (events @ [Tick ts])) =
           step_calls (run options events) @
             (if frame_callbacks (run options events) = [] then []
              else [easing options (1 - (duration options - (ts - t0)) / duration options)])
    \<and> step_calls (run options (map Tick (t0 # tss))) =
           map (\<lambda>t. easing options (1 - (duration options - (t - t0)) / duration options))
             (t0 # tss)
    \<and> 1 - (duration options - (ts - t0)) / duration options = (ts - t0) / duration options"
proof -
  have "1 - (duration options - (ts - t0)) / duration options = (ts - t0) / duration options"
    using assms(1) by (simp add: field_simps)
  with tick_value_in_run [OF assms] ticks_only_run_live [OF assms(1,3)]
  show ?thesis by blast
qed

theorem C5_value_before_deadline_witness:
  "0 < duration defaultOptions
   \<and> tick_times ([Signal Mousedown, Tick 0, Tick 16] @ [Tick 32]) = 0 # [16, 32]
   \<and> (0::real) \<le> 16 \<and> 16 - 0 < duration defaultOptions
   \<and> (0::real) \<le> 32 \<and> 32 - 0 < duration defaultOptions
   \<and> frame_callbacks (run defaultOptions [Signal Mousedown, Tick 0, Tick 16]) \<noteq> []
   \<and> step_calls (run defaultOptions [Signal Mousedown, Tick 0, Tick 16]) = [0, 2 / 125]
   \<and> step_calls (run defaultOptions ([Signal Mousedown, Tick 0, Tick 16] @ [Tick 32])) =
        [0, 2 / 125, 4 / 125]
   \<and> step_calls (run defaultOptions (map Tick (0 # [16, 32]))) = [0, 2 / 125, 4 / 125]"
proof -
  have h1: "0 < duration defaultOptions"
    by (simp add: defaultOptions_def)
  have h2: "tick_times ([Signal Mousedown, Tick 0, Tick 16] @ [Tick 32]) = 0 # [16, 32]"
    by (simp add: tick_times_def)
  have h3: "\<forall>t \<in> set [16, 32]. (0::real) \<le> t \<and> t - 0 < duration defaultOptions"
    by (simp add: defaultOptions_def)
  have s: "frame_callbacks (run defaultOptions [Signal Mousedown, Tick 0, Tick 16]) \<noteq> []"
    "step_calls (run defaultOptions [Signal Mousedown, Tick 0, Tick 16]) = [0, 2 / 125]"
    by (simp_all add: driver_defs)
  have e: "easing defaultOptions (1 - (duration defaultOptions - (32 - 0)) / duration defaultOptions)
             = 4 / 125"
    "map (\<lambda>t. easing defaultOptions (1 - (duration defaultOptions - (t - 0)) / duration defaultOptions))
       (0 # [16, 32]) = [0, 2 / 125, 4 / 125]"
    by (simp_all add: defaultOptions_def linear_easing_def)
  from C5_value_before_deadline [OF h1 h2 h3]
  have "step_calls (run defaultOptions ([Signal Mousedown, Tick 0, Tick 16] @ [Tick 32])) =
          step_calls (run defaultOptions [Signal Mousedown, Tick 0, Tick 16]) @
            (if frame_callbacks (run defaultOptions [Signal Mousedown, Tick 0, Tick 16]) = [] then []
             else [easing defaultOptions
                     (1 - (duration defaultOptions - (32 - 0)) / duration defaultOptions)])"
    and "step_calls (run defaultOptions (map Tick (0 # [16, 32]))) =
           map (\<lambda>t. easing defaultOptions
                  (1 - (duration defaultOptions - (t - 0)) / duration defaultOptions))
             (0 # [16, 32])"
    by blast+
  with h1 h2 s e show ?thesis by (simp add: defaultOptions_def)
qed

subsection \<open>Runs with cancellation on user action\<close>

text \<open>
  When the host calls the handler as a listener, \<open>this\<close> is the element; when \<open>frame\<close>
  calls it, \<open>this\<close> is \<open>undefined\<close>. Neither is the registered handler, so
  \<open>removeListeners\<close> finds nothing to remove: in every run with \<open>cancelOnUserAction\<close> the
  four listeners stay registered whatever happens.
\<close>

lemma handler_keeps_listeners:
  assumes "listeners s = registered_listeners" "this \<noteq> AnimationCompleteHandlerRef"
  shows "listeners (animationCompleteHandler options this s) = registered_listeners"
  using assms
  by (simp add: animationCompleteHandler_def removeListeners_def removeEventListener_def
      cancelAnimationFrame_def resolve_def registered_listeners_def Let_def
      split: option.splits)

lemma frame_keeps_listeners:
  assumes "listeners s = registered_listeners"
  shows "listeners (frame options ts s) = registered_listeners"
proof (cases "shouldContinue (or_number (start s) ts) ts (duration options)")
  case True
  then show ?thesis using assms
    by (simp add: frame_def requestAnimationFrame_def step_def Let_def)
next
  case False
  then show ?thesis using assms
    by (simp add: frame_def Let_def step_def handler_keeps_listeners)
qed

lemma run_frame_callbacks_keeps_listeners:
  "listeners s = registered_listeners \<Longrightarrow>
   listeners (run_frame_callbacks options ts hs s) = registered_listeners"
  by (induction hs arbitrary: s) (simp_all add: frame_keeps_listeners)

lemma dispatch_keeps_listeners:
  "listeners s = registered_listeners \<Longrightarrow>
   listeners (dispatch_listeners options ls s) = registered_listeners"
  by (induction ls arbitrary: s)
    (simp_all add: call_listener_def handler_keeps_listeners split: js_value.splits)

lemma host_step_keeps_listeners:
  "listeners s = registered_listeners \<Longrightarrow>
   listeners (host_step options e s) = registered_listeners"
  by (cases e)
    (simp_all add: run_frame_callbacks_keeps_listeners dispatchEvent_def
      dispatch_keeps_listeners)

lemma listeners_never_removed:
  assumes "cancelOnUserAction options"
  shows "listeners (run options events) = registered_listeners"
proof -
  have "listeners (animate_executor options) = registered_listeners"
    using assms
    by (simp add: animate_executor_def addListeners_def addEventListener_def
        initial_state_def requestAnimationFrame_def registered_listeners_def)
  moreover have "listeners s = registered_listeners \<Longrightarrow>
      listeners (fold (host_step options) events s) = registered_listeners" for s
    by (induction events arbitrary: s) (simp_all add: host_step_keeps_listeners)
  ultimately show ?thesis by (simp add: run_def)
qed

text \<open>
  C2. For every run with \<open>cancelOnUserAction\<close> the four interaction listeners are
  removed exactly once, with the handler reference that was registered, whether the run
  ends by reaching the deadline or by an interaction signal, and two signals in quick
  succession execute the teardown once. The code does not behave so: with the default
  options, after the run has completed at its deadline (ticks at \<open>5\<close> and \<open>1005\<close>) and
  after it has been cancelled (tick at \<open>5\<close>, then \<open>mousedown\<close>) the four listeners are
  still registered, and a \<open>wheel\<close> signal after the \<open>mousedown\<close> executes the handler,
  and with it \<open>resolve\<close>, a second time.
\<close>

theorem C2_listeners_not_removed:
  "listeners (animate_executor defaultOptions) = registered_listeners
   \<and> listeners (run defaultOptions [Tick 5, Tick 1005]) = registered_listeners
   \<and> resolve_calls (run defaultOptions [Tick 5, Tick 1005]) = 1
   \<and> listeners (run defaultOptions [Tick 5, Signal Mousedown]) = registered_listeners
   \<and> resolve_calls (run defaultOptions [Tick 5, Signal Mousedown]) = 1
   \<and> resolve_calls (run defaultOptions [Tick 5, Signal Mousedown, Signal Wheel]) = 2"
  by (simp add: driver_defs registered_listeners_def)

text \<open>
  Once a tick has stored its request in \<open>requestId\<close>, the handler cancels that
  request.
\<close>

lemma handler_cancels_stored_request:
  assumes "requestId s = Some h" "frame_callbacks s = [h]"
  shows "frame_callbacks (animationCompleteHandler options this s) = []"
  using assms
  by (simp add: animationCompleteHandler_def removeListeners_def removeEventListener_def
      cancelAnimationFrame_def resolve_def Let_def)

text \<open>
  C3. Once the completion handler has run, any pending scheduled tick is cancelled, so
  that \<open>step\<close> is never called after the returned operation has settled; in particular a
  signal that arrives before the first tick prevents that tick and all later ones from
  calling \<open>step\<close>. The code does not behave so for a signal before the first tick: the
  request of line 136 is not stored in \<open>requestId\<close>, so with the default options a
  \<open>mousedown\<close> before the first tick settles the operation and leaves the request
  scheduled, and the ticks at \<open>5\<close> and \<open>21\<close> then call \<open>step\<close> with \<open>0\<close> and
  \<open>2 / 125\<close>.
\<close>

theorem C3_first_tick_not_cancelled:
  "resolve_calls (run defaultOptions [Signal Mousedown]) = 1
   \<and> requestId (animate_executor defaultOptions) = None
   \<and> frame_callbacks (animate_executor defaultOptions) = [1]
   \<and> frame_callbacks (run defaultOptions [Signal Mousedown]) = [1]
   \<and> step_calls (run defaultOptions [Signal Mousedown]) = []
   \<and> step_calls (run defaultOptions [Signal Mousedown, Tick 5]) = [0]
   \<and> step_calls (run defaultOptions [Signal Mousedown, Tick 5, Tick 21]) = [0, 2 / 125]"
  by (simp add: driver_defs)

subsection \<open>Runs without cancellation on user action\<close>

lemma frame_no_cancel_listeners:
  "\<not> cancelOnUserAction options \<Longrightarrow> listeners (frame options ts s) = listeners s"
  by (simp add: frame_def animationCompleteHandler_def requestAnimationFrame_def
      cancelAnimationFrame_def step_def resolve_def Let_def split: option.splits)

lemma frame_no_cancel_inv:
  assumes "\<not> cancelOnUserAction options" "listeners s = []" "resolve_calls s = 0"
    "frame_callbacks s = []"
  shows "no_cancel_inv (frame options ts s)"
  using assms
  by (simp add: no_cancel_inv_def frame_def animationCompleteHandler_def
      requestAnimationFrame_def cancelAnimationFrame_def step_def resolve_def Let_def
      split: option.splits)

lemma tick_no_cancel_inv:
  assumes "\<not> cancelOnUserAction options" "no_cancel_inv s"
  shows "no_cancel_inv (host_step options (Tick ts) s)"
proof (cases "resolve_calls s = 0")
  case True
  with assms(2) obtain h where h: "frame_callbacks s = [h]" and l: "listeners s = []"
    by (auto simp: no_cancel_inv_def length_Suc_conv)
  show ?thesis
    using frame_no_cancel_inv [OF assms(1), of "s\<lparr>frame_callbacks := []\<rparr>" ts] h l True
    by simp
next
  case False
  with assms(2) have "frame_callbacks s = []" by (auto simp: no_cancel_inv_def)
  then show ?thesis using assms(2) by simp
qed

lemma signal_no_listeners:
  "listeners s = [] \<Longrightarrow> host_step options (Signal type) s = s"
  by (simp add: dispatchEvent_def)

lemma host_step_no_cancel_inv:
  assumes "\<not> cancelOnUserAction options" "no_cancel_inv s"
  shows "no_cancel_inv (host_step options e s)"
proof (cases e)
  case (Tick ts)
  then show ?thesis using tick_no_cancel_inv [OF assms] by simp
next
  case (Signal type)
  then show ?thesis using assms(2) signal_no_listeners [of s] by (simp add: no_cancel_inv_def)
qed

lemma executor_no_cancel_inv:
  "\<not> cancelOnUserAction options \<Longrightarrow> no_cancel_inv (animate_executor options)"
  by (simp add: no_cancel_inv_def animate_executor_def initial_state_def
      requestAnimationFrame_def)

lemma fold_no_cancel_inv:
  assumes "\<not> cancelOnUserAction options"
  shows "no_cancel_inv s \<Longrightarrow> no_cancel_inv (fold (host_step options) events s)"
  by (induction events arbitrary: s) (simp_all add: host_step_no_cancel_inv [OF assms])

lemma run_no_cancel_inv:
  "\<not> cancelOnUserAction options \<Longrightarrow> no_cancel_inv (run options events)"
  unfolding run_def by (rule fold_no_cancel_inv) (simp_all add: executor_no_cancel_inv)

lemma fold_ticks_only:
  assumes "\<not> cancelOnUserAction options"
  shows "no_cancel_inv s \<Longrightarrow>
    fold (host_step options) (ticks_only events) s = fold (host_step options) events s"
proof (induction events arbitrary: s)
  case Nil
  then show ?case by (simp add: ticks_only_def)
next
  case (Cons e events)
  show ?case
  proof (cases e)
    case (Tick ts)
    have "no_cancel_inv (host_step options (Tick ts) s)"
      using tick_no_cancel_inv [OF assms Cons.prems] .
    from Cons.IH [OF this] Tick show ?thesis by (simp add: ticks_only_def)
  next
    case (Signal type)
    have "host_step options (Signal type) s = s"
      using Cons.prems by (simp add: signal_no_listeners no_cancel_inv_def del: host_step.simps)
    with Cons.IH [OF Cons.prems] Signal show ?thesis by (simp add: ticks_only_def del: host_step.simps)
  qed
qed

lemma deadline_tick_settles:
  assumes nc: "\<not> cancelOnUserAction options"
    and inv: "no_cancel_inv s" and un: "resolve_calls s = 0"
    and dl: "duration options \<le> ts - or_number (start s) ts"
  shows "resolve_calls (host_step options (Tick ts) s) = 1"
    and "step_calls (host_step options (Tick ts) s) = step_calls s @ [1]"
proof -
  from inv un obtain h where h: "frame_callbacks s = [h]"
    by (auto simp: no_cancel_inv_def length_Suc_conv)
  have dl': "duration options \<le> ts - or_number (start (s\<lparr>frame_callbacks := []\<rparr>)) ts"
    using dl by simp
  show "resolve_calls (host_step options (Tick ts) s) = 1"
    using h un by (simp add: frame_deadline [OF dl'] handler_observations step_def)
  show "step_calls (host_step options (Tick ts) s) = step_calls s @ [1]"
    using h by (simp add: frame_deadline [OF dl'] handler_observations step_def)
qed

text \<open>
  C6. For every run with \<open>cancelOnUserAction = false\<close> no interaction listener is
  registered on the element, an interaction signal leaves the run as it is (the run is
  the run of its ticks alone), and the operation settles normally: as long as it is
  unsettled, the first tick that reaches the deadline calls \<open>step(1)\<close> and resolves the
  promise, and whenever the promise is settled it has been resolved once, nothing is
  scheduled and the last call of \<open>step\<close> was \<open>step(1)\<close>.
\<close>

theorem C6_no_cancel:
  assumes "\<not> cancelOnUserAction options"
  shows "listeners (animate_executor options) = []
    \<and> listeners (run options events) = []
    \<and> host_step options (Signal type) (run options events) = run options events
    \<and> run options events = run options (ticks_only events)
    \<and> (resolve_calls (run options events) = 0
        \<or> resolve_calls (run options events) = 1
          \<and> frame_callbacks (run options events) = []
          \<and> step_calls (run options events) \<noteq> []
          \<and> last (step_calls (run options events)) = 1)
    \<and> (resolve_calls (run options events) = 0
        \<and> duration options \<le> ts - or_number (start (run options events)) ts \<longrightarrow>
          resolve_calls (run options (events @ [Tick ts])) = 1
        \<and> step_calls (run options (events @ [Tick ts])) = step_calls (run options events) @ [1])"
proof -
  note inv = run_no_cancel_inv [OF assms, of events]
  have l0: "listeners (animate_executor options) = []"
    using executor_no_cancel_inv [OF assms] by (simp add: no_cancel_inv_def)
  have l: "listeners (run options events) = []"
    using inv by (simp add: no_cancel_inv_def)
  have sg: "host_step options (Signal type) (run options events) = run options events"
    using l by (rule signal_no_listeners)
  have t: "run options events = run options (ticks_only events)"
    unfolding run_def
    using fold_ticks_only [OF assms executor_no_cancel_inv [OF assms], of events] by simp
  have st: "resolve_calls (run options events) = 0
        \<or> resolve_calls (run options events) = 1
          \<and> frame_callbacks (run options events) = []
          \<and> step_calls (run options events) \<noteq> []
          \<and> last (step_calls (run options events)) = 1"
    using inv by (auto simp: no_cancel_inv_def)
  have dl: "resolve_calls (run options events) = 0
        \<and> duration options \<le> ts - or_number (start (run options events)) ts \<longrightarrow>
          resolve_calls (run options (events @ [Tick ts])) = 1
        \<and> step_calls (run options (events @ [Tick ts])) = step_calls (run options events) @ [1]"
    unfolding run_snoc using deadline_tick_settles [OF assms inv] by blast
  from l0 l sg t st dl show ?thesis by blast
qed

theorem C6_no_cancel_witness:
  "\<not> cancelOnUserAction (defaultOptions\<lparr>cancelOnUserAction := False, duration := 300\<rparr>)
   \<and> resolve_calls (run (defaultOptions\<lparr>cancelOnUserAction := False, duration := 300\<rparr>)
        [Tick 10, Tick 60, Signal Wheel, Tick 110]) = 0
   \<and> duration (defaultOptions\<lparr>cancelOnUserAction := False, duration := 300\<rparr>)
        \<le> 310 - or_number (start (run (defaultOptions\<lparr>cancelOnUserAction := False, duration := 300\<rparr>)
              [Tick 10, Tick 60, Signal Wheel, Tick 110])) 310
   \<and> listeners (run (defaultOptions\<lparr>cancelOnUserAction := False, duration := 300\<rparr>)
        [Tick 10, Tick 60, Signal Wheel, Tick 110]) = []
   \<and> step_calls (run (defaultOptions\<lparr>cancelOnUserAction := False, duration := 300\<rparr>)
        [Tick 10, Tick 60, Signal Wheel, Tick 110]) = [0, 1 / 6, 1 / 3]
   \<and> resolve_calls (run (defaultOptions\<lparr>cancelOnUserAction := False, duration := 300\<rparr>)
        ([Tick 10, Tick 60, Signal Wheel, Tick 110] @ [Tick 310])) = 1
   \<and> step_calls (run (defaultOptions\<lparr>cancelOnUserAction := False, duration := 300\<rparr>)
        ([Tick 10, Tick 60, Signal Wheel, Tick 110] @ [Tick 310])) = [0, 1 / 6, 1 / 3, 1]"
proof -
  define options where "options = defaultOptions\<lparr>cancelOnUserAction := False, duration := 300\<rparr>"
  define events where "events = [Tick 10, Tick 60, Signal Wheel, Tick 110]"
  have h: "\<not> cancelOnUserAction options"
    by (simp add: options_def)
  have u: "resolve_calls (run options events) = 0"
    and d: "duration options \<le> 310 - or_number (start (run options events)) 310"
    and s: "step_calls (run options events) = [0, 1 / 6, 1 / 3]"
    by (simp_all add: options_def events_def driver_defs)
  from C6_no_cancel [OF h, of events Wheel 310] u d
  have "listeners (run options events) = []"
    and "resolve_calls (run options (events @ [Tick 310])) = 1"
    and "step_calls (run options (events @ [Tick 310])) = step_calls (run options events) @ [1]"
    by blast+
  with h u d s show ?thesis
    unfolding options_def events_def by simp
qed

end
